theory Spec2Isabelle
  imports Complex_Main
begin

section \<open>The LED matrix controller (Programm.py)\<close>

text \<open>
  The controller drives nine SK6812 LEDs from nine switches and two rotary encoders.
  Its module-level globals become one record of state that every function takes and
  returns. Python's \<open>int\<close> is \<open>int\<close>. Python's \<open>float\<close> is modelled by \<open>real\<close>: rounding
  is not modelled, and the properties below rest on the order of the numbers (\<open>max\<close>,
  \<open>min\<close>, the comparison with a threshold), not on the exact value of a sum. The
  external libraries (neopixel, gpiozero, pycaw) are modelled only as far as
  the program observes them: the pixel buffer with its brightness scalar and the frames
  that \<open>pixels.show()\<close> has pushed, the scalars handed to the audio endpoint, and the lines
  printed to standard output.
\<close>

subsection \<open>Data\<close>

type_synonym rgb = "int \<times> int \<times> int"

datatype exn = IndexError | COMError | KeyboardInterrupt

text \<open>\<open>KeyboardInterrupt\<close> derives from \<open>BaseException\<close>, the others from \<open>Exception\<close>.\<close>

fun is_Exception :: "exn \<Rightarrow> bool" where
  "is_Exception KeyboardInterrupt = False"
| "is_Exception _ = True"

text \<open>
  The lines the program prints, one constructor per kind of line, carrying the values
  that the line formats. \<open>Brightness_line b\<close> stands for the line that shows
  \<open>int(b * 100)\<close> as a percentage, \<open>Banner\<close> for the seven lines that \<open>main\<close> prints
  first, \<open>Goodbye\<close> for the last line of the shutdown.
\<close>

datatype msg =
    Audio_control_initialized
  | Audio_control_not_available exn
  | Error_setting_volume exn
  | Brightness_line real
  | Volume_line int
  | LED_ON int rgb
  | LED_OFF int
  | Banner
  | Shutting_down
  | Goodbye

record state =
  pixels :: "rgb list"
  pixels_brightness :: real
  strip :: "(rgb list \<times> real) list"
  brightness :: real
  volume :: int
  led_states :: "bool list"
  audio_available :: bool
  audio_calls :: "real list"
  audio_faults :: "nat \<Rightarrow> bool"
  stdout :: "msg list"

text \<open>
  \<open>strip\<close> lists the frames pushed by \<open>pixels.show()\<close>, oldest first; \<open>audio_calls\<close> lists
  the scalars passed to \<open>SetMasterVolumeLevelScalar\<close>, oldest first; \<open>audio_faults n\<close>
  tells whether the \<open>n\<close>-th such call (counting from 0) raises.

  A statement either completes in a new state or raises an exception, leaving the
  state as mutated so far.
\<close>

type_synonym result = "(exn \<times> state) + state"

definition NUM_LEDS :: nat where
  "NUM_LEDS = 9"

definition SWITCH_PINS :: "nat list" where
  "SWITCH_PINS = [5, 6, 13, 19, 26, 12, 16, 20, 21]"

definition led_colors :: "rgb list" where
  "led_colors =
     [(255, 0, 0), (0, 255, 0), (0, 0, 255), (255, 255, 0), (0, 255, 255),
      (255, 0, 255), (255, 165, 0), (128, 0, 128), (255, 255, 255)]"

subsection \<open>Primitives of Python and of the libraries\<close>

definition py_print :: "msg \<Rightarrow> state \<Rightarrow> state" where
  "py_print m s = s\<lparr>stdout := stdout s @ [m]\<rparr>"

text \<open>
  Indexing a sequence of length \<open>n\<close> with a Python integer: negative indices count from
  the end, anything else out of range raises \<open>IndexError\<close> (here \<open>None\<close>). The
  NeoPixel buffer follows the same rule.
\<close>

definition py_index :: "nat \<Rightarrow> int \<Rightarrow> nat option" where
  "py_index n i =
     (if 0 \<le> i \<and> i < int n then Some (nat i)
      else if - int n \<le> i \<and> i < 0 then Some (nat (int n + i))
      else None)"

definition pixels_fill :: "rgb \<Rightarrow> state \<Rightarrow> state" where
  "pixels_fill c s = s\<lparr>pixels := replicate (length (pixels s)) c\<rparr>"

definition pixels_show :: "state \<Rightarrow> state" where
  "pixels_show s = s\<lparr>strip := strip s @ [(pixels s, pixels_brightness s)]\<rparr>"

definition SetMasterVolumeLevelScalar :: "real \<Rightarrow> state \<Rightarrow> result" where
  "SetMasterVolumeLevelScalar v s =
     (let n = length (audio_calls s);
          s' = s\<lparr>audio_calls := audio_calls s @ [v]\<rparr>
      in if audio_faults s n then Inl (COMError, s') else Inr s')"

text \<open>\<open>try: body except Exception as e: handler\<close>\<close>

definition try_except_Exception :: "result \<Rightarrow> (exn \<Rightarrow> state \<Rightarrow> result) \<Rightarrow> result" where
  "try_except_Exception body handler =
     (case body of
        Inr s \<Rightarrow> Inr s
      | Inl (e, s) \<Rightarrow> if is_Exception e then handler e s else Inl (e, s))"

subsection \<open>Module initialisation\<close>

text \<open>
  The module body creates the pixel buffer (all black, brightness 0.5, nothing pushed),
  sets \<open>brightness = 0.5\<close>, \<open>volume = 50\<close>, all LEDs off, and probes the audio endpoint
  once. \<open>probe_ok\<close> tells whether \<open>GetSpeakers\<close>, \<open>Activate\<close> and \<open>cast\<close> succeed.
  \<open>audio_available\<close> has no value before the probe; \<open>power_on\<close> holds \<open>False\<close> in its
  place, and both branches of the probe assign it.
\<close>

definition power_on :: "(nat \<Rightarrow> bool) \<Rightarrow> state" where
  "power_on faults =
     \<lparr>pixels = replicate NUM_LEDS (0, 0, 0), pixels_brightness = 0.5, strip = [],
      brightness = 0.5, volume = 50, led_states = replicate NUM_LEDS False,
      audio_available = False, audio_calls = [], audio_faults = faults, stdout = []\<rparr>"

definition audio_probe :: "bool \<Rightarrow> state \<Rightarrow> result" where
  "audio_probe probe_ok s = (if probe_ok then Inr s else Inl (COMError, s))"

definition init_audio :: "bool \<Rightarrow> state \<Rightarrow> result" where
  "init_audio probe_ok s =
     try_except_Exception
       (case audio_probe probe_ok s of
          Inl x \<Rightarrow> Inl x
        | Inr s1 \<Rightarrow> Inr (py_print Audio_control_initialized (s1\<lparr>audio_available := True\<rparr>)))
       (\<lambda>e s1. Inr ((py_print (Audio_control_not_available e) s1)\<lparr>audio_available := False\<rparr>))"

definition module_init :: "bool \<Rightarrow> (nat \<Rightarrow> bool) \<Rightarrow> result" where
  "module_init probe_ok faults = init_audio probe_ok (power_on faults)"

subsection \<open>The functions of the program\<close>

definition set_system_volume :: "int \<Rightarrow> state \<Rightarrow> result" where
  "set_system_volume vol s =
     (if audio_available s then
        try_except_Exception
          (let volume_scalar = real_of_int vol / 100.0
           in SetMasterVolumeLevelScalar volume_scalar s)
          (\<lambda>e s1. Inr (py_print (Error_setting_volume e) s1))
      else Inr s)"

definition update_brightness :: "int \<Rightarrow> state \<Rightarrow> state" where
  "update_brightness steps s =
     (let old_brightness = brightness s;
          s1 = s\<lparr>brightness := max 0.0 (min 1.0 (brightness s + real_of_int steps * 0.02))\<rparr>
      in if \<bar>brightness s1 - old_brightness\<bar> > 0.01 then
           py_print (Brightness_line (brightness s1))
             (pixels_show (s1\<lparr>pixels_brightness := brightness s1\<rparr>))
         else s1)"

definition update_volume :: "int \<Rightarrow> state \<Rightarrow> result" where
  "update_volume steps s =
     (let old_volume = volume s;
          s1 = s\<lparr>volume := max 0 (min 100 (volume s + steps * 2))\<rparr>
      in if \<bar>volume s1 - old_volume\<bar> > 1 then
           (case set_system_volume (volume s1) s1 of
              Inl x \<Rightarrow> Inl x
            | Inr s2 \<Rightarrow> Inr (py_print (Volume_line (volume s2)) s2))
         else Inr s1)"

definition toggle_led :: "int \<Rightarrow> state \<Rightarrow> result" where
  "toggle_led index s =
     (case py_index (length (led_states s)) index of
        None \<Rightarrow> Inl (IndexError, s)
      | Some k \<Rightarrow>
          let s1 = s\<lparr>led_states := (led_states s)[k := \<not> led_states s ! k]\<rparr>
          in if led_states s1 ! k then
               (case py_index (length led_colors) index of
                  None \<Rightarrow> Inl (IndexError, s1)
                | Some c \<Rightarrow>
                    (case py_index (length (pixels s1)) index of
                       None \<Rightarrow> Inl (IndexError, s1)
                     | Some p \<Rightarrow>
                         Inr (pixels_show (py_print (LED_ON (index + 1) (led_colors ! c))
                                (s1\<lparr>pixels := (pixels s1)[p := led_colors ! c]\<rparr>)))))
             else
               (case py_index (length (pixels s1)) index of
                  None \<Rightarrow> Inl (IndexError, s1)
                | Some p \<Rightarrow>
                    Inr (pixels_show (py_print (LED_OFF (index + 1))
                           (s1\<lparr>pixels := (pixels s1)[p := (0, 0, 0)]\<rparr>)))))"

text \<open>
  A gpiozero button, as far as the program uses it: its pin and the handler stored in
  \<open>when_pressed\<close>. The handler \<open>lambda idx=i: toggle_led(idx)\<close> takes its index from a
  default argument, which Python evaluates when the lambda is created, and gpiozero calls
  it without arguments.
\<close>

record button =
  pin :: nat
  when_pressed :: "(state \<Rightarrow> result) option"

definition switches :: "button list" where
  "switches = map (\<lambda>p. \<lparr>pin = p, when_pressed = None\<rparr>) SWITCH_PINS"

definition setup_switch_handlers :: "button list \<Rightarrow> button list" where
  "setup_switch_handlers sws =
     map (\<lambda>(i, switch). switch\<lparr>when_pressed := Some (\<lambda>s. toggle_led (int i) s)\<rparr>)
       (enumerate 0 sws)"

subsection \<open>The control loop\<close>

text \<open>
  What the loop meets, in order: an iteration of the loop body in which the two encoders
  read the given step counts, a press edge on a switch (gpiozero then calls the handler
  of that switch; here it runs between two iterations), or the interrupt signal. A list
  of events is a finite prefix of what happens: \<open>while True\<close> has no exit of its own, so
  the loop is \<open>Running\<close> when the events are used up, unless an exception has ended it.
\<close>

datatype event = Poll int int | Press nat | Interrupt

datatype outcome = Running state | Raised exn state | Returned state

definition press :: "button list \<Rightarrow> nat \<Rightarrow> state \<Rightarrow> result" where
  "press sws i s =
     (if i < length sws then
        (case when_pressed (sws ! i) of None \<Rightarrow> Inr s | Some handler \<Rightarrow> handler s)
      else Inr s)"

fun control_loop :: "button list \<Rightarrow> event list \<Rightarrow> int \<Rightarrow> int \<Rightarrow> state \<Rightarrow> outcome" where
  "control_loop sws [] last_brightness_value last_volume_value s = Running s"
| "control_loop sws (Interrupt # evs) last_brightness_value last_volume_value s =
     Raised KeyboardInterrupt s"
| "control_loop sws (Press i # evs) last_brightness_value last_volume_value s =
     (case press sws i s of
        Inl (e, s1) \<Rightarrow> Raised e s1
      | Inr s1 \<Rightarrow> control_loop sws evs last_brightness_value last_volume_value s1)"
| "control_loop sws (Poll current_brightness current_volume # evs)
       last_brightness_value last_volume_value s =
     (let s1 = (if current_brightness \<noteq> last_brightness_value
                then update_brightness (current_brightness - last_brightness_value) s
                else s)
      in case (if current_volume \<noteq> last_volume_value
               then update_volume (current_volume - last_volume_value) s1
               else Inr s1) of
           Inl (e, s2) \<Rightarrow> Raised e s2
         | Inr s2 \<Rightarrow> control_loop sws evs current_brightness current_volume s2)"

definition shutdown :: "state \<Rightarrow> state" where
  "shutdown s = py_print Goodbye (pixels_show (pixels_fill (0, 0, 0) (py_print Shutting_down s)))"

definition main :: "int \<Rightarrow> int \<Rightarrow> event list \<Rightarrow> state \<Rightarrow> outcome" where
  "main b0 v0 evs s =
     (let s1 = pixels_show (pixels_fill (0, 0, 0) (py_print Banner s));
          sws = setup_switch_handlers switches
      in case set_system_volume (volume s1) s1 of
           Inl (e, s2) \<Rightarrow> Raised e s2
         | Inr s2 \<Rightarrow>
             (case control_loop sws evs b0 v0 s2 of
                Raised e s3 \<Rightarrow>
                  if e = KeyboardInterrupt then Returned (shutdown s3) else Raised e s3
              | out \<Rightarrow> out))"

text \<open>
  The whole program: module initialisation, then \<open>main()\<close>. \<open>b0\<close> and \<open>v0\<close> are the step
  counts the encoders show when \<open>main\<close> first reads them.
\<close>

definition program :: "bool \<Rightarrow> (nat \<Rightarrow> bool) \<Rightarrow> int \<Rightarrow> int \<Rightarrow> event list \<Rightarrow> outcome" where
  "program probe_ok faults b0 v0 evs =
     (case module_init probe_ok faults of
        Inl (e, s) \<Rightarrow> Raised e s
      | Inr s \<Rightarrow> main b0 v0 evs s)"

text \<open>The exit status of the process: 0 when \<open>main\<close> returns, 1 on an uncaught exception.\<close>

fun exit_status :: "outcome \<Rightarrow> int option" where
  "exit_status (Running s) = None"
| "exit_status (Returned s) = Some 0"
| "exit_status (Raised e s) = Some 1"

subsection \<open>Notions used to state the properties\<close>



definition in_bounds :: "state \<Rightarrow> bool" where
  "in_bounds s = (0 \<le> brightness s \<and> brightness s \<le> 1 \<and> 0 \<le> volume s \<and> volume s \<le> 100)"

text \<open>
  The specification's \<open>clamp(x, lo, hi)\<close>, written from its words; the program writes
  \<open>max(lo, min(hi, x))\<close>.
\<close>

definition clamp :: "'a::linorder \<Rightarrow> 'a \<Rightarrow> 'a \<Rightarrow> 'a" where
  "clamp x lo hi = (if x < lo then lo else if hi < x then hi else x)"

text \<open>An audio endpoint none of whose calls raises.\<close>

definition never :: "nat \<Rightarrow> bool" where
  "never n = False"

text \<open>One statement after another: the second runs only if the first completes.\<close>

definition and_then :: "result \<Rightarrow> (state \<Rightarrow> result) \<Rightarrow> result" where
  "and_then r f = (case r of Inl x \<Rightarrow> Inl x | Inr s \<Rightarrow> f s)"

text \<open>
  Two states used as examples: the state that module initialisation yields when the audio
  probe succeeds and no audio call ever raises, and the same with both parameters at
  their upper bounds.
\<close>

definition ready :: state where
  "ready = (power_on never)\<lparr>audio_available := True, stdout := [Audio_control_initialized]\<rparr>"

definition saturated :: state where
  "saturated = ready\<lparr>brightness := 1.0, volume := 100\<rparr>"

text \<open>
  What the strip should show for given on/off states: the assigned colour where the LED
  is on, black where it is off.
\<close>

definition rendered :: "bool list \<Rightarrow> rgb list" where
  "rendered ons = map2 (\<lambda>on c. if on then c else (0, 0, 0)) ons led_colors"

text \<open>The invariant of the control loop.\<close>

definition loop_inv :: "state \<Rightarrow> bool" where
  "loop_inv s =
     (length (led_states s) = NUM_LEDS \<and> pixels s = rendered (led_states s)
      \<and> even (volume s) \<and> in_bounds s)"

text \<open>The switches as \<open>main\<close> leaves them after \<open>setup_switch_handlers()\<close>.\<close>

definition handlers :: "button list" where
  "handlers = setup_switch_handlers switches"

text \<open>The state in which a run of the program stands or has ended.\<close>

fun final :: "outcome \<Rightarrow> state" where
  "final (Running s) = s"
| "final (Raised e s) = s"
| "final (Returned s) = s"

text \<open>Everything the LED side of the program shows or remembers.\<close>

definition led_view ::
  "state \<Rightarrow> rgb list \<times> real \<times> (rgb list \<times> real) list \<times> real \<times> bool list" where
  "led_view s = (pixels s, pixels_brightness s, strip s, brightness s, led_states s)"

text \<open>
  Example: the program started with working audio, encoders at 0, and switch 3 (index 2)
  pressed once.
\<close>

definition lit_blue :: state where
  "lit_blue = final (program True never 0 0 [Press 2])"

text \<open>An audio endpoint every call of which raises.\<close>

definition always :: "nat \<Rightarrow> bool" where
  "always n = True"

section \<open>Properties\<close>

subsection \<open>What the functions compute\<close>

lemma clamp_max_min: "lo \<le> hi \<Longrightarrow> max lo (min hi x) = clamp x lo hi"
  by (auto simp: clamp_def max_def min_def)

lemma module_init_eq:
  "module_init probe_ok faults =
     Inr (if probe_ok
          then (power_on faults)\<lparr>audio_available := True, stdout := [Audio_control_initialized]\<rparr>
          else (power_on faults)\<lparr>stdout := [Audio_control_not_available COMError]\<rparr>)"
  by (simp add: module_init_def init_audio_def audio_probe_def try_except_Exception_def
      py_print_def power_on_def)

lemma set_system_volume_eq:
  "set_system_volume vol s =
     Inr (if audio_available s then
            (if audio_faults s (length (audio_calls s))
             then py_print (Error_setting_volume COMError)
                    (s\<lparr>audio_calls := audio_calls s @ [real_of_int vol / 100]\<rparr>)
             else s\<lparr>audio_calls := audio_calls s @ [real_of_int vol / 100]\<rparr>)
          else s)"
  by (simp add: set_system_volume_def try_except_Exception_def
      SetMasterVolumeLevelScalar_def Let_def)

lemma update_volume_eq:
  "update_volume steps s =
     Inr (let new = max 0 (min 100 (volume s + steps * 2)); s1 = s\<lparr>volume := new\<rparr>
          in if \<bar>new - volume s\<bar> > 1 then
               py_print (Volume_line new)
                 (if audio_available s then
                    (if audio_faults s (length (audio_calls s))
                     then py_print (Error_setting_volume COMError)
                            (s1\<lparr>audio_calls := audio_calls s @ [real_of_int new / 100]\<rparr>)
                     else s1\<lparr>audio_calls := audio_calls s @ [real_of_int new / 100]\<rparr>)
                  else s1)
             else s1)"
  by (simp add: update_volume_def set_system_volume_eq Let_def py_print_def)



subsection \<open>The parameter integrators\<close>






text \<open>
  C3. For an in-bounds old value and a delta whose resulting change is at most the
  threshold (0.01 for brightness, 1 for volume), nothing is pushed: \<open>update_brightness\<close>
  leaves the driver's brightness scalar, the pixel buffer and the list of pushed frames
  as they were, and \<open>update_volume\<close> completes without a call to the audio endpoint.
\<close>

theorem no_push_below_threshold:
  "in_bounds s \<Longrightarrow>
   (\<bar>clamp (brightness s + real_of_int d * 0.02) 0.0 1.0 - brightness s\<bar> \<le> 0.01 \<longrightarrow>
      pixels_brightness (update_brightness d s) = pixels_brightness s
      \<and> strip (update_brightness d s) = strip s
      \<and> pixels (update_brightness d s) = pixels s)
   \<and> (\<bar>clamp (volume s + d * 2) 0 100 - volume s\<bar> \<le> 1 \<longrightarrow>
      (\<exists>s'. update_volume d s = Inr s' \<and> audio_calls s' = audio_calls s))"
proof -
  have b: "max 0.0 (min 1.0 (brightness s + real_of_int d * 0.02)) =
           clamp (brightness s + real_of_int d * 0.02) 0.0 1.0"
    by (rule clamp_max_min) simp
  have v: "max 0 (min 100 (volume s + d * 2)) = clamp (volume s + d * 2) 0 100"
    by (rule clamp_max_min) simp
  have "\<bar>clamp (brightness s + real_of_int d * 0.02) 0.0 1.0 - brightness s\<bar> \<le> 0.01 \<longrightarrow>
      pixels_brightness (update_brightness d s) = pixels_brightness s
      \<and> strip (update_brightness d s) = strip s
      \<and> pixels (update_brightness d s) = pixels s"
    using b by (simp add: update_brightness_def Let_def)
  moreover have "\<bar>clamp (volume s + d * 2) 0 100 - volume s\<bar> \<le> 1 \<longrightarrow>
      (\<exists>s'. update_volume d s = Inr s' \<and> audio_calls s' = audio_calls s)"
    using v by (simp add: update_volume_eq Let_def)
  ultimately show ?thesis by blast
qed

theorem no_push_below_threshold_witness:
  "in_bounds saturated
   \<and> \<bar>clamp (brightness saturated + real_of_int 3 * 0.02) 0.0 1.0 - brightness saturated\<bar> \<le> 0.01
   \<and> \<bar>clamp (volume saturated + 3 * 2) 0 100 - volume saturated\<bar> \<le> 1
   \<and> pixels_brightness (update_brightness 3 saturated) = 0.5
   \<and> strip (update_brightness 3 saturated) = []
   \<and> pixels (update_brightness 3 saturated) = replicate 9 (0, 0, 0)
   \<and> (\<exists>s'. update_volume 3 saturated = Inr s' \<and> audio_calls s' = [])"
proof -
  have h: "in_bounds saturated"
    by (simp add: in_bounds_def saturated_def)
  have b: "clamp (brightness saturated + real_of_int 3 * 0.02) 0.0 1.0 = brightness saturated"
    by (simp add: clamp_def saturated_def)
  have v: "clamp (volume saturated + 3 * 2) 0 100 = volume saturated"
    by (simp add: clamp_def saturated_def)
  have f: "pixels_brightness saturated = 0.5" "strip saturated = []"
    "audio_calls saturated = []" "pixels saturated = replicate 9 (0, 0, 0)"
    by (simp_all add: saturated_def ready_def power_on_def NUM_LEDS_def)
  from no_push_below_threshold [OF h, of 3] show ?thesis
    unfolding b v using h f by auto
qed




subsection \<open>The LED state machine and the control loop\<close>

lemma length_led_colors: "length led_colors = NUM_LEDS"
  by (simp add: led_colors_def NUM_LEDS_def)

lemma length_rendered: "length ons = NUM_LEDS \<Longrightarrow> length (rendered ons) = NUM_LEDS"
  by (simp add: rendered_def length_led_colors)

lemma nth_rendered:
  "length ons = NUM_LEDS \<Longrightarrow> i < NUM_LEDS \<Longrightarrow>
   rendered ons ! i = (if ons ! i then led_colors ! i else (0, 0, 0))"
  by (simp add: rendered_def length_led_colors)

lemma rendered_update:
  "length ons = NUM_LEDS \<Longrightarrow> i < NUM_LEDS \<Longrightarrow>
   rendered (ons[i := b]) = (rendered ons)[i := if b then led_colors ! i else (0, 0, 0)]"
  by (rule nth_equalityI) (auto simp: nth_rendered length_rendered nth_list_update)

lemma py_index_nat: "i < n \<Longrightarrow> py_index n (int i) = Some i"
  by (simp add: py_index_def)

lemma toggle_led_eq:
  assumes "length (led_states s) = NUM_LEDS" "length (pixels s) = NUM_LEDS" "i < NUM_LEDS"
  shows "toggle_led (int i) s =
     Inr (s\<lparr>led_states := (led_states s)[i := \<not> led_states s ! i],
            pixels := (pixels s)[i := if led_states s ! i then (0, 0, 0) else led_colors ! i],
            stdout := stdout s @ [if led_states s ! i then LED_OFF (int i + 1)
                                  else LED_ON (int i + 1) (led_colors ! i)],
            strip := strip s @
              [((pixels s)[i := if led_states s ! i then (0, 0, 0) else led_colors ! i],
                pixels_brightness s)]\<rparr>)"
  using assms
  by (simp add: toggle_led_def py_index_nat length_led_colors Let_def py_print_def
      pixels_show_def)

lemma length_handlers: "length handlers = NUM_LEDS"
  by (simp add: handlers_def setup_switch_handlers_def switches_def SWITCH_PINS_def NUM_LEDS_def)

lemma when_pressed_handlers:
  "i < NUM_LEDS \<Longrightarrow> when_pressed (handlers ! i) = Some (toggle_led (int i))"
proof -
  assume i: "i < NUM_LEDS"
  then have "i < length (enumerate 0 switches)"
    by (simp add: switches_def SWITCH_PINS_def NUM_LEDS_def)
  then show ?thesis
    by (simp add: handlers_def setup_switch_handlers_def nth_enumerate_eq)
qed

lemma press_handlers:
  "press handlers i s = (if i < NUM_LEDS then toggle_led (int i) s else Inr s)"
  by (simp add: press_def length_handlers when_pressed_handlers)

lemma toggle_led_inv:
  assumes "loop_inv s" "i < NUM_LEDS"
  shows "\<exists>s'. toggle_led (int i) s = Inr s' \<and> loop_inv s'"
proof -
  from assms have l: "length (led_states s) = NUM_LEDS" "length (pixels s) = NUM_LEDS"
    and p: "pixels s = rendered (led_states s)"
    by (simp_all add: loop_inv_def length_rendered)
  show ?thesis
    using assms l
    by (simp add: toggle_led_eq [OF l assms(2)] loop_inv_def in_bounds_def rendered_update)
qed

lemma press_inv: "loop_inv s \<Longrightarrow> \<exists>s'. press handlers i s = Inr s' \<and> loop_inv s'"
  by (simp add: press_handlers toggle_led_inv)

lemma update_brightness_inv: "loop_inv s \<Longrightarrow> loop_inv (update_brightness d s)"
  by (simp add: loop_inv_def in_bounds_def update_brightness_def Let_def py_print_def
      pixels_show_def)

lemma update_volume_inv: "loop_inv s \<Longrightarrow> \<exists>s'. update_volume d s = Inr s' \<and> loop_inv s'"
  by (simp add: loop_inv_def in_bounds_def update_volume_eq Let_def py_print_def max_def min_def)

lemma control_loop_invariant:
  assumes "I s" "Interrupt \<notin> set evs"
    and P: "\<And>i s. I s \<Longrightarrow> \<exists>s'. press sws i s = Inr s' \<and> I s'"
    and B: "\<And>d s. I s \<Longrightarrow> I (update_brightness d s)"
    and V: "\<And>d s. I s \<Longrightarrow> \<exists>s'. update_volume d s = Inr s' \<and> I s'"
  shows "\<exists>s'. I s' \<and> control_loop sws evs lb lv s = Running s'
           \<and> (\<forall>evs'. control_loop sws (evs @ Interrupt # evs') lb lv s
                        = Raised KeyboardInterrupt s')"
  using assms(1,2)
proof (induction evs arbitrary: lb lv s)
  case Nil
  then show ?case by simp
next
  case (Cons ev evs)
  then have ni: "Interrupt \<notin> set evs" by simp
  show ?case
  proof (cases ev)
    case (Poll cb cv)
    define s1 where "s1 = (if cb \<noteq> lb then update_brightness (cb - lb) s else s)"
    have I1: "I s1" using Cons.prems(1) B by (simp add: s1_def)
    obtain s2 where s2: "(if cv \<noteq> lv then update_volume (cv - lv) s1 else Inr s1) = Inr s2"
      and I2: "I s2"
      using V [OF I1, of "cv - lv"] I1 by (cases "cv = lv") auto
    from Cons.IH [OF I2 ni, of cb cv] s2 show ?thesis
      by (simp add: Poll s1_def [symmetric])
  next
    case (Press i)
    from P [OF Cons.prems(1), of i] obtain s1 where s1: "press sws i s = Inr s1" and I1: "I s1"
      by blast
    from Cons.IH [OF I1 ni, of lb lv] s1 show ?thesis
      by (simp add: Press)
  next
    case Interrupt
    with Cons.prems show ?thesis by simp
  qed
qed

lemma rendered_all_off: "rendered (replicate NUM_LEDS False) = replicate NUM_LEDS (0, 0, 0)"
  by (simp add: rendered_def NUM_LEDS_def led_colors_def numeral_eq_Suc)

lemma program_entry:
  "\<exists>s0. loop_inv s0 \<and> audio_available s0 = probe_ok \<and> volume s0 = 50
      \<and> led_view s0 = (replicate NUM_LEDS (0, 0, 0), 0.5,
                        [(replicate NUM_LEDS (0, 0, 0), 0.5)], 0.5, replicate NUM_LEDS False)
      \<and> (\<forall>b0 v0 evs. program probe_ok faults b0 v0 evs =
           (case control_loop handlers evs b0 v0 s0 of
              Raised e s3 \<Rightarrow> if e = KeyboardInterrupt then Returned (shutdown s3) else Raised e s3
            | out \<Rightarrow> out))"
proof -
  define s1 where "s1 = pixels_show (pixels_fill (0, 0, 0) (py_print Banner
     (if probe_ok
      then (power_on faults)\<lparr>audio_available := True, stdout := [Audio_control_initialized]\<rparr>
      else (power_on faults)\<lparr>stdout := [Audio_control_not_available COMError]\<rparr>)))"
  define s0 where "s0 =
     (if probe_ok then
        (if faults 0
         then py_print (Error_setting_volume COMError) (s1\<lparr>audio_calls := [0.5]\<rparr>)
         else s1\<lparr>audio_calls := [0.5]\<rparr>)
      else s1)"
  have f: "pixels s0 = replicate NUM_LEDS (0, 0, 0)" "pixels_brightness s0 = 0.5"
    "strip s0 = [(replicate NUM_LEDS (0, 0, 0), 0.5)]" "brightness s0 = 0.5"
    "led_states s0 = replicate NUM_LEDS False" "volume s0 = 50"
    "audio_available s0 = probe_ok"
    by (simp_all add: s0_def s1_def power_on_def py_print_def pixels_fill_def pixels_show_def)
  have "loop_inv s0"
    by (simp add: loop_inv_def in_bounds_def f rendered_all_off)
  moreover have "program probe_ok faults b0 v0 evs =
           (case control_loop handlers evs b0 v0 s0 of
              Raised e s3 \<Rightarrow> if e = KeyboardInterrupt then Returned (shutdown s3) else Raised e s3
            | out \<Rightarrow> out)" for b0 v0 evs
    by (simp add: program_def module_init_eq main_def set_system_volume_eq handlers_def
        s0_def s1_def Let_def power_on_def py_print_def pixels_fill_def pixels_show_def)
  ultimately show ?thesis
    using f by (auto simp: led_view_def)
qed

lemma toggle_led_audio:
  "toggle_led i s = Inr s' \<Longrightarrow>
   audio_available s' = audio_available s \<and> audio_calls s' = audio_calls s
   \<and> volume s' = volume s \<and> brightness s' = brightness s"
  by (auto simp: toggle_led_def Let_def py_print_def pixels_show_def
      split: option.splits if_splits)

lemma press_audio:
  "press handlers i s = Inr s' \<Longrightarrow> audio_available s' = audio_available s"
  by (auto simp: press_handlers dest: toggle_led_audio split: if_splits)

lemma update_brightness_audio:
  "audio_available (update_brightness d s) = audio_available s"
  by (simp add: update_brightness_def Let_def py_print_def pixels_show_def)

lemma update_volume_audio:
  "update_volume d s = Inr s' \<Longrightarrow> audio_available s' = audio_available s"
  by (auto simp: update_volume_eq Let_def py_print_def split: if_splits)

lemma control_loop_audio:
  assumes "loop_inv s" "Interrupt \<notin> set evs"
  shows "\<exists>s'. (loop_inv s' \<and> audio_available s' = audio_available s)
           \<and> control_loop handlers evs lb lv s = Running s'
           \<and> (\<forall>evs'. control_loop handlers (evs @ Interrupt # evs') lb lv s
                        = Raised KeyboardInterrupt s')"
proof (rule control_loop_invariant
    [where I = "\<lambda>x. loop_inv x \<and> audio_available x = audio_available s"])
  show "loop_inv s \<and> audio_available s = audio_available s" using assms by simp
  show "Interrupt \<notin> set evs" by fact
next
  fix i x assume "loop_inv x \<and> audio_available x = audio_available s"
  then show "\<exists>s'. press handlers i x = Inr s'
      \<and> (loop_inv s' \<and> audio_available s' = audio_available s)"
    using press_inv [of x i] press_audio [of i x] by auto
next
  fix d x assume "loop_inv x \<and> audio_available x = audio_available s"
  then show "loop_inv (update_brightness d x)
      \<and> audio_available (update_brightness d x) = audio_available s"
    by (simp add: update_brightness_inv update_brightness_audio)
next
  fix d x assume "loop_inv x \<and> audio_available x = audio_available s"
  then show "\<exists>s'. update_volume d x = Inr s'
      \<and> (loop_inv s' \<and> audio_available s' = audio_available s)"
    using update_volume_inv [of x d] update_volume_audio [of d x] by auto
qed

lemma shutdown_audio: "audio_available (shutdown s) = audio_available s"
  by (simp add: shutdown_def py_print_def pixels_fill_def pixels_show_def)

lemma program_run:
  assumes "Interrupt \<notin> set evs"
  shows "\<exists>s. loop_inv s \<and> audio_available s = probe_ok
           \<and> program probe_ok faults b0 v0 evs = Running s
           \<and> (\<forall>evs'. program probe_ok faults b0 v0 (evs @ Interrupt # evs')
                        = Returned (shutdown s))"
proof -
  from program_entry [of probe_ok faults] obtain s0 where inv: "loop_inv s0"
    and a: "audio_available s0 = probe_ok"
    and p: "\<And>b0 v0 evs. program probe_ok faults b0 v0 evs =
           (case control_loop handlers evs b0 v0 s0 of
              Raised e s3 \<Rightarrow> if e = KeyboardInterrupt then Returned (shutdown s3) else Raised e s3
            | out \<Rightarrow> out)"
    by blast
  from control_loop_audio [OF inv assms, of b0 v0] obtain s where
    "loop_inv s" "audio_available s = audio_available s0"
    "control_loop handlers evs b0 v0 s0 = Running s"
    "\<forall>evs'. control_loop handlers (evs @ Interrupt # evs') b0 v0 s0 = Raised KeyboardInterrupt s"
    by blast
  then show ?thesis using a by (simp add: p)
qed

lemma program_Running:
  assumes "program probe_ok faults b0 v0 evs = Running s"
  shows "loop_inv s \<and> audio_available s = probe_ok \<and> Interrupt \<notin> set evs"
proof (cases "Interrupt \<in> set evs")
  case True
  from split_list_first [OF True] obtain evs1 evs2
    where e: "evs = evs1 @ Interrupt # evs2" and n: "Interrupt \<notin> set evs1" by blast
  from program_run [OF n, of probe_ok faults b0 v0] assms show ?thesis
    unfolding e by auto
next
  case False
  from program_run [OF False, of probe_ok faults b0 v0] assms False show ?thesis by auto
qed

text \<open>
  C5, as stated: in every reachable state, after any state-changing operation, pixel slot
  \<open>i\<close> shows \<open>led_colors[i]\<close> when \<open>led_states[i]\<close> is on and black when it is off. It
  fails after the shutdown sequence: with LED 0 switched on, the interrupt blanks the
  pixel buffer and leaves \<open>led_states[0]\<close> on, so slot 0 is black where the assigned
  colour is red.
\<close>

theorem shutdown_leaves_led_states_counterexample:
  "exit_status (program True never 0 0 [Press 0, Interrupt]) = Some 0
   \<and> led_states (final (program True never 0 0 [Press 0, Interrupt])) ! 0
   \<and> pixels (final (program True never 0 0 [Press 0, Interrupt])) ! 0 = (0, 0, 0)
   \<and> led_colors ! 0 = (255, 0, 0)"
  by (simp add: program_def module_init_eq main_def set_system_volume_eq
      handlers_def [symmetric] press_handlers toggle_led_def py_index_def power_on_def
      NUM_LEDS_def never_def Let_def py_print_def pixels_fill_def pixels_show_def shutdown_def
      led_colors_def)

text \<open>
  C5, amended. In every state in which the control loop is running (that is, before the
  shutdown sequence) and for every LED index \<open>i\<close> in [0, 9): pixel slot \<open>i\<close> equals
  \<open>led_colors[i]\<close> when \<open>led_states[i]\<close> is on and black when it is off, so no other
  pixel value is reachable; and \<open>toggle_led(i)\<close> completes, its last effect being the
  commit of the updated buffer, in which slot \<open>i\<close> again agrees with \<open>led_states[i]\<close>.
\<close>

theorem pixels_follow_led_states:
  assumes "program probe_ok faults b0 v0 evs = Running s" "i < NUM_LEDS"
  shows "pixels s ! i = (if led_states s ! i then led_colors ! i else (0, 0, 0))
    \<and> (\<exists>s'. toggle_led (int i) s = Inr s'
          \<and> strip s' = strip s @ [(pixels s', pixels_brightness s')]
          \<and> pixels s' ! i = (if led_states s' ! i then led_colors ! i else (0, 0, 0)))"
proof -
  from program_Running [OF assms(1)] have inv: "loop_inv s" by simp
  then have l: "length (led_states s) = NUM_LEDS" "length (pixels s) = NUM_LEDS"
    and p: "pixels s = rendered (led_states s)"
    by (simp_all add: loop_inv_def length_rendered)
  have 1: "pixels s ! i = (if led_states s ! i then led_colors ! i else (0, 0, 0))"
    using p l assms(2) by (simp add: nth_rendered)
  have 2: "\<exists>s'. toggle_led (int i) s = Inr s'
          \<and> strip s' = strip s @ [(pixels s', pixels_brightness s')]
          \<and> pixels s' ! i = (if led_states s' ! i then led_colors ! i else (0, 0, 0))"
    using l assms(2) by (simp add: toggle_led_eq [OF l assms(2)])
  from 1 2 show ?thesis by blast
qed

lemma lit_blue_run: "program True never 0 0 [Press 2] = Running lit_blue"
  by (simp add: lit_blue_def program_def module_init_eq main_def set_system_volume_eq
      handlers_def [symmetric] press_handlers toggle_led_def py_index_def power_on_def
      NUM_LEDS_def never_def Let_def py_print_def pixels_fill_def pixels_show_def
      led_colors_def)

theorem pixels_follow_led_states_witness:
  "program True never 0 0 [Press 2] = Running lit_blue \<and> (2::nat) < NUM_LEDS
   \<and> pixels lit_blue ! 2 = (if led_states lit_blue ! 2 then led_colors ! 2 else (0, 0, 0))
   \<and> (\<exists>s'. toggle_led (int 2) lit_blue = Inr s'
          \<and> strip s' = strip lit_blue @ [(pixels s', pixels_brightness s')]
          \<and> pixels s' ! 2 = (if led_states s' ! 2 then led_colors ! 2 else (0, 0, 0)))"
proof -
  have n: "(2::nat) < NUM_LEDS" by (simp add: NUM_LEDS_def)
  from pixels_follow_led_states [OF lit_blue_run n] lit_blue_run n show ?thesis by blast
qed

text \<open>
  C6. In every state in which the control loop is running and for every LED index \<open>i\<close>
  in [0, 9): \<open>toggle_led(i)\<close> completes and inverts \<open>led_states[i]\<close>, and a second
  \<open>toggle_led(i)\<close> completes and restores the on/off states and the pixel buffer, so LED
  \<open>i\<close> is back at its original state and its original rendered colour.
\<close>

theorem toggle_led_twice:
  assumes "program probe_ok faults b0 v0 evs = Running s" "i < NUM_LEDS"
  shows "\<exists>s1 s2. toggle_led (int i) s = Inr s1 \<and> toggle_led (int i) s1 = Inr s2
           \<and> led_states s1 ! i = (\<not> led_states s ! i)
           \<and> led_states s2 = led_states s \<and> pixels s2 = pixels s"
proof -
  from program_Running [OF assms(1)] have inv: "loop_inv s" by simp
  then have l: "length (led_states s) = NUM_LEDS" "length (pixels s) = NUM_LEDS"
    and p: "pixels s = rendered (led_states s)"
    by (simp_all add: loop_inv_def length_rendered)
  define s1 where "s1 = projr (toggle_led (int i) s)"
  have t1: "toggle_led (int i) s = Inr s1"
    by (simp add: s1_def toggle_led_eq [OF l assms(2)])
  have f1: "led_states s1 = (led_states s)[i := \<not> led_states s ! i]"
    "pixels s1 = (pixels s)[i := if led_states s ! i then (0, 0, 0) else led_colors ! i]"
    by (simp_all add: s1_def toggle_led_eq [OF l assms(2)])
  have l1: "length (led_states s1) = NUM_LEDS" "length (pixels s1) = NUM_LEDS"
    using l by (simp_all add: f1)
  define s2 where "s2 = projr (toggle_led (int i) s1)"
  have t2: "toggle_led (int i) s1 = Inr s2"
    by (simp add: s2_def toggle_led_eq [OF l1 assms(2)])
  have pi: "pixels s ! i = (if led_states s ! i then led_colors ! i else (0, 0, 0))"
    using p l assms(2) by (simp add: nth_rendered)
  have f2: "led_states s2 = led_states s" "pixels s2 = pixels s"
    using l assms(2) pi
    by (simp_all add: s2_def toggle_led_eq [OF l1 assms(2)] f1 list_update_same_conv)
  have "led_states s1 ! i = (\<not> led_states s ! i)"
    using l assms(2) by (simp add: f1)
  with t1 t2 f2 show ?thesis by blast
qed

theorem toggle_led_twice_witness:
  "program True never 0 0 [Press 2] = Running lit_blue \<and> (2::nat) < NUM_LEDS
   \<and> (\<exists>s1 s2. toggle_led (int 2) lit_blue = Inr s1 \<and> toggle_led (int 2) s1 = Inr s2
           \<and> led_states s1 ! 2 = (\<not> led_states lit_blue ! 2)
           \<and> led_states s2 = led_states lit_blue \<and> pixels s2 = pixels lit_blue)"
proof -
  have n: "(2::nat) < NUM_LEDS" by (simp add: NUM_LEDS_def)
  from toggle_led_twice [OF lit_blue_run n] lit_blue_run n show ?thesis by blast
qed

subsection \<open>Shutdown\<close>

lemma shutdown_eq:
  "shutdown s =
     s\<lparr>pixels := replicate (length (pixels s)) (0, 0, 0),
       strip := strip s @ [(replicate (length (pixels s)) (0, 0, 0), pixels_brightness s)],
       stdout := stdout s @ [Shutting_down, Goodbye]\<rparr>"
  by (simp add: shutdown_def py_print_def pixels_fill_def pixels_show_def)

text \<open>
  C7. Whatever the loop has met before (\<open>evs\<close> without an interrupt, after which it is
  still running in some state \<open>s\<close>), the interrupt makes the program run the shutdown
  sequence on \<open>s\<close> and return with exit status 0, whatever would have followed; the
  shutdown leaves all nine pixels black and pushes exactly one more frame, the black
  one. The program returns if and only if an interrupt occurs, and is still running
  otherwise: there is no other way out of the loop. The last two lines say that the
  shutdown sequence blanks and commits from any state \<open>t\<close>, so also when the interrupt
  arrives in the middle of an iteration.
\<close>

theorem interrupt_runs_shutdown:
  "(Interrupt \<notin> set evs \<longrightarrow>
      (\<exists>s. program probe_ok faults b0 v0 evs = Running s
         \<and> (\<forall>evs'. program probe_ok faults b0 v0 (evs @ Interrupt # evs') = Returned (shutdown s)
               \<and> exit_status (program probe_ok faults b0 v0 (evs @ Interrupt # evs')) = Some 0)
         \<and> pixels (shutdown s) = replicate NUM_LEDS (0, 0, 0)
         \<and> strip (shutdown s) = strip s @ [(replicate NUM_LEDS (0, 0, 0), pixels_brightness s)]))
   \<and> ((\<exists>s. program probe_ok faults b0 v0 evs = Returned s) \<longleftrightarrow> Interrupt \<in> set evs)
   \<and> ((\<exists>s. program probe_ok faults b0 v0 evs = Running s) \<longleftrightarrow> Interrupt \<notin> set evs)
   \<and> pixels (shutdown t) = replicate (length (pixels t)) (0, 0, 0)
   \<and> strip (shutdown t) =
        strip t @ [(replicate (length (pixels t)) (0, 0, 0), pixels_brightness t)]"
proof -
  have 1: "\<exists>s. program probe_ok faults b0 v0 evs = Running s
         \<and> (\<forall>evs'. program probe_ok faults b0 v0 (evs @ Interrupt # evs') = Returned (shutdown s)
               \<and> exit_status (program probe_ok faults b0 v0 (evs @ Interrupt # evs')) = Some 0)
         \<and> pixels (shutdown s) = replicate NUM_LEDS (0, 0, 0)
         \<and> strip (shutdown s) = strip s @ [(replicate NUM_LEDS (0, 0, 0), pixels_brightness s)]"
    if n: "Interrupt \<notin> set evs"
  proof -
    from program_run [OF n, of probe_ok faults b0 v0] obtain s where inv: "loop_inv s"
      and r: "program probe_ok faults b0 v0 evs = Running s"
      and i: "\<forall>evs'. program probe_ok faults b0 v0 (evs @ Interrupt # evs') = Returned (shutdown s)"
      by blast
    from inv have l: "length (pixels s) = NUM_LEDS"
      by (simp add: loop_inv_def length_rendered)
    show ?thesis using r i l by (auto simp: shutdown_eq)
  qed
  have 2: "\<exists>s. program probe_ok faults b0 v0 evs = Returned s" if y: "Interrupt \<in> set evs"
  proof -
    from split_list_first [OF y] obtain evs1 evs2
      where e: "evs = evs1 @ Interrupt # evs2" and n: "Interrupt \<notin> set evs1" by blast
    from program_run [OF n, of probe_ok faults b0 v0] show ?thesis
      unfolding e by blast
  qed
  have 3: "pixels (shutdown t) = replicate (length (pixels t)) (0, 0, 0)
   \<and> strip (shutdown t) =
        strip t @ [(replicate (length (pixels t)) (0, 0, 0), pixels_brightness t)]"
    by (simp add: shutdown_eq)
  have 4: "(\<exists>s. program probe_ok faults b0 v0 evs = Returned s) \<longleftrightarrow> Interrupt \<in> set evs"
    using 1 2 by (cases "Interrupt \<in> set evs") auto
  have 5: "(\<exists>s. program probe_ok faults b0 v0 evs = Running s) \<longleftrightarrow> Interrupt \<notin> set evs"
    using 1 2 by (cases "Interrupt \<in> set evs") auto
  from 1 3 4 5 show ?thesis by blast
qed

theorem interrupt_runs_shutdown_witness:
  "Interrupt \<notin> set [Press 2]
   \<and> program True never 0 0 [Press 2] = Running lit_blue
   \<and> program True never 0 0 ([Press 2] @ Interrupt # [Poll 1 1]) = Returned (shutdown lit_blue)
   \<and> exit_status (program True never 0 0 ([Press 2] @ Interrupt # [Poll 1 1])) = Some 0
   \<and> pixels (shutdown lit_blue) = replicate NUM_LEDS (0, 0, 0)
   \<and> strip (shutdown lit_blue) =
        strip lit_blue @ [(replicate NUM_LEDS (0, 0, 0), pixels_brightness lit_blue)]"
proof -
  have n: "Interrupt \<notin> set [Press 2]" by simp
  from interrupt_runs_shutdown [of "[Press 2]" True never 0 0] n
  obtain s where r: "program True never 0 0 [Press 2] = Running s"
    and a: "\<forall>evs'. program True never 0 0 ([Press 2] @ Interrupt # evs') = Returned (shutdown s)
               \<and> exit_status (program True never 0 0 ([Press 2] @ Interrupt # evs')) = Some 0"
    and b: "pixels (shutdown s) = replicate NUM_LEDS (0, 0, 0)"
    and c: "strip (shutdown s) = strip s @ [(replicate NUM_LEDS (0, 0, 0), pixels_brightness s)]"
    by blast
  from r lit_blue_run have "s = lit_blue" by simp
  with n lit_blue_run a b c show ?thesis by blast
qed

subsection \<open>Audio failures\<close>

lemma update_brightness_view:
  "led_view s = led_view t \<Longrightarrow>
   led_view (update_brightness d s) = led_view (update_brightness d t)
   \<and> volume (update_brightness d s) = volume s"
  by (simp add: led_view_def update_brightness_def Let_def py_print_def pixels_show_def)

lemma update_volume_view:
  "update_volume d s = Inr s' \<Longrightarrow>
   led_view s' = led_view s \<and> volume s' = max 0 (min 100 (volume s + d * 2))"
  by (auto simp: led_view_def update_volume_eq Let_def py_print_def split: if_splits)

lemma toggle_led_view:
  assumes "loop_inv s" "loop_inv t" "led_view s = led_view t" "i < NUM_LEDS"
    "toggle_led (int i) s = Inr s'" "toggle_led (int i) t = Inr t'"
  shows "led_view s' = led_view t' \<and> volume s' = volume s \<and> volume t' = volume t"
proof -
  from assms(1,2) have l: "length (led_states s) = NUM_LEDS" "length (pixels s) = NUM_LEDS"
    "length (led_states t) = NUM_LEDS" "length (pixels t) = NUM_LEDS"
    by (simp_all add: loop_inv_def length_rendered)
  from assms(3,5,6) show ?thesis
    by (auto simp: toggle_led_eq [OF l(1,2) assms(4)] toggle_led_eq [OF l(3,4) assms(4)]
        led_view_def)
qed

lemma control_loop_same_leds:
  assumes "loop_inv s" "loop_inv t" "led_view s = led_view t" "volume s = volume t"
  shows "\<exists>s' t'. led_view s' = led_view t'
     \<and> (control_loop handlers evs lb lv s = Running s'
          \<and> control_loop handlers evs lb lv t = Running t'
        \<or> control_loop handlers evs lb lv s = Raised KeyboardInterrupt s'
          \<and> control_loop handlers evs lb lv t = Raised KeyboardInterrupt t')"
  using assms
proof (induction evs arbitrary: lb lv s t)
  case Nil
  then show ?case by simp
next
  case (Cons ev evs)
  show ?case
  proof (cases ev)
    case (Poll cb cv)
    define s1 where "s1 = (if cb \<noteq> lb then update_brightness (cb - lb) s else s)"
    define t1 where "t1 = (if cb \<noteq> lb then update_brightness (cb - lb) t else t)"
    have i1: "loop_inv s1" "loop_inv t1"
      using Cons.prems by (simp_all add: s1_def t1_def update_brightness_inv)
    have v1: "led_view s1 = led_view t1" "volume s1 = volume t1"
      using Cons.prems update_brightness_view [of s t "cb - lb"]
        update_brightness_view [of t t "cb - lb"]
      by (simp_all add: s1_def t1_def)
    obtain s2 where s2: "(if cv \<noteq> lv then update_volume (cv - lv) s1 else Inr s1) = Inr s2"
      and is2: "loop_inv s2"
      using update_volume_inv [OF i1(1), of "cv - lv"] i1(1) by (cases "cv = lv") auto
    obtain t2 where t2: "(if cv \<noteq> lv then update_volume (cv - lv) t1 else Inr t1) = Inr t2"
      and it2: "loop_inv t2"
      using update_volume_inv [OF i1(2), of "cv - lv"] i1(2) by (cases "cv = lv") auto
    have v2: "led_view s2 = led_view t2 \<and> volume s2 = volume t2"
      using s2 t2 v1 update_volume_view [of "cv - lv" s1 s2] update_volume_view [of "cv - lv" t1 t2]
      by (cases "cv = lv") auto
    from Cons.IH [OF is2 it2, of cb cv] v2 s2 t2 show ?thesis
      by (simp add: Poll s1_def [symmetric] t1_def [symmetric])
  next
    case (Press i)
    obtain s1 where s1: "press handlers i s = Inr s1" and is1: "loop_inv s1"
      using press_inv [OF Cons.prems(1), of i] by blast
    obtain t1 where t1: "press handlers i t = Inr t1" and it1: "loop_inv t1"
      using press_inv [OF Cons.prems(2), of i] by blast
    have v1: "led_view s1 = led_view t1 \<and> volume s1 = volume t1"
    proof (cases "i < NUM_LEDS")
      case True
      with s1 t1 toggle_led_view [OF Cons.prems(1,2,3) True, of s1 t1] Cons.prems(4)
      show ?thesis by (simp add: press_handlers)
    next
      case False
      with s1 t1 Cons.prems show ?thesis by (simp add: press_handlers)
    qed
    from Cons.IH [OF is1 it1, of lb lv] v1 s1 t1 show ?thesis
      by (simp add: Press)
  next
    case Interrupt
    with Cons.prems show ?thesis by simp
  qed
qed

lemma shutdown_view: "led_view s = led_view t \<Longrightarrow> led_view (shutdown s) = led_view (shutdown t)"
  by (simp add: led_view_def shutdown_eq)

lemma program_same_leds:
  "led_view (final (program probe_ok faults b0 v0 evs))
     = led_view (final (program probe_ok' faults' b0 v0 evs))"
proof -
  from program_entry [of probe_ok faults] obtain s0 where s0: "loop_inv s0" "volume s0 = 50"
    "led_view s0 = (replicate NUM_LEDS (0, 0, 0), 0.5,
                        [(replicate NUM_LEDS (0, 0, 0), 0.5)], 0.5, replicate NUM_LEDS False)"
    and p: "\<And>b0 v0 evs. program probe_ok faults b0 v0 evs =
           (case control_loop handlers evs b0 v0 s0 of
              Raised e s3 \<Rightarrow> if e = KeyboardInterrupt then Returned (shutdown s3) else Raised e s3
            | out \<Rightarrow> out)"
    by blast
  from program_entry [of probe_ok' faults'] obtain t0 where t0: "loop_inv t0" "volume t0 = 50"
    "led_view t0 = (replicate NUM_LEDS (0, 0, 0), 0.5,
                        [(replicate NUM_LEDS (0, 0, 0), 0.5)], 0.5, replicate NUM_LEDS False)"
    and q: "\<And>b0 v0 evs. program probe_ok' faults' b0 v0 evs =
           (case control_loop handlers evs b0 v0 t0 of
              Raised e s3 \<Rightarrow> if e = KeyboardInterrupt then Returned (shutdown s3) else Raised e s3
            | out \<Rightarrow> out)"
    by blast
  have "led_view s0 = led_view t0" "volume s0 = volume t0"
    using s0 t0 by simp_all
  from control_loop_same_leds [OF s0(1) t0(1) this, of evs b0 v0]
  obtain s' t' where v: "led_view s' = led_view t'"
    and c: "control_loop handlers evs b0 v0 s0 = Running s'
              \<and> control_loop handlers evs b0 v0 t0 = Running t'
            \<or> control_loop handlers evs b0 v0 s0 = Raised KeyboardInterrupt s'
              \<and> control_loop handlers evs b0 v0 t0 = Raised KeyboardInterrupt t'"
    by blast
  from c show ?thesis
  proof
    assume "control_loop handlers evs b0 v0 s0 = Running s'
              \<and> control_loop handlers evs b0 v0 t0 = Running t'"
    then show ?thesis using v by (simp add: p q)
  next
    assume "control_loop handlers evs b0 v0 s0 = Raised KeyboardInterrupt s'
              \<and> control_loop handlers evs b0 v0 t0 = Raised KeyboardInterrupt t'"
    then show ?thesis using shutdown_view [OF v] by (simp add: p q)
  qed
qed

text \<open>
  C8. \<open>set_system_volume\<close> always completes: with audio unavailable it does nothing;
  otherwise it passes the scalar to the endpoint, and if that call raises (the second
  line: it raises exactly when the environment says so) the error is caught and one
  line is printed. The availability flag is set by the single probe at module
  initialisation and equals its result in every later state. No audio fault ends the
  program: it exits only on an interrupt, with status 0. And the LED side (pixel buffer,
  brightness scalar, pushed frames, stored brightness, on/off states) is after every run
  the same as in the run with working, fault-free audio.
\<close>

theorem audio_failures_never_escape:
  "set_system_volume vol s =
     Inr (if audio_available s then
            (if audio_faults s (length (audio_calls s))
             then (s\<lparr>audio_calls := audio_calls s @ [real_of_int vol / 100.0],
                      stdout := stdout s @ [Error_setting_volume COMError]\<rparr>)
             else s\<lparr>audio_calls := audio_calls s @ [real_of_int vol / 100.0]\<rparr>)
          else s)
   \<and> isl (SetMasterVolumeLevelScalar (real_of_int vol / 100.0) s)
        = audio_faults s (length (audio_calls s))
   \<and> audio_available (final (program probe_ok faults b0 v0 evs)) = probe_ok
   \<and> exit_status (program probe_ok faults b0 v0 evs)
        = (if Interrupt \<in> set evs then Some 0 else None)
   \<and> led_view (final (program probe_ok faults b0 v0 evs))
        = led_view (final (program True never b0 v0 evs))"
proof -
  have 1: "set_system_volume vol s =
     Inr (if audio_available s then
            (if audio_faults s (length (audio_calls s))
             then (s\<lparr>audio_calls := audio_calls s @ [real_of_int vol / 100.0],
                      stdout := stdout s @ [Error_setting_volume COMError]\<rparr>)
             else s\<lparr>audio_calls := audio_calls s @ [real_of_int vol / 100.0]\<rparr>)
          else s)"
    by (simp add: set_system_volume_eq py_print_def)
  have 2: "isl (SetMasterVolumeLevelScalar (real_of_int vol / 100.0) s)
        = audio_faults s (length (audio_calls s))"
    by (simp add: SetMasterVolumeLevelScalar_def Let_def)
  have 3: "audio_available (final (program probe_ok faults b0 v0 evs)) = probe_ok
   \<and> exit_status (program probe_ok faults b0 v0 evs)
        = (if Interrupt \<in> set evs then Some 0 else None)"
  proof (cases "Interrupt \<in> set evs")
    case True
    from split_list_first [OF True] obtain evs1 evs2
      where e: "evs = evs1 @ Interrupt # evs2" and n: "Interrupt \<notin> set evs1" by blast
    from program_run [OF n, of probe_ok faults b0 v0] True show ?thesis
      unfolding e by (auto simp: shutdown_audio)
  next
    case False
    from program_run [OF False, of probe_ok faults b0 v0] False show ?thesis by auto
  qed
  from 1 2 3 program_same_leds [of probe_ok faults b0 v0 evs True never] show ?thesis
    by blast
qed

theorem audio_failures_never_escape_witness:
  "isl (SetMasterVolumeLevelScalar (real_of_int 52 / 100.0) (ready\<lparr>audio_faults := always\<rparr>))
   \<and> \<not> isl (set_system_volume 52 (ready\<lparr>audio_faults := always\<rparr>))
   \<and> audio_available (final (program True always 0 0 [Poll 0 1]))
   \<and> exit_status (program True always 0 0 [Poll 0 1]) = None
   \<and> led_view (final (program True always 0 0 [Poll 0 1]))
        = led_view (final (program True never 0 0 [Poll 0 1]))"
  using audio_failures_never_escape
    [of 52 "ready\<lparr>audio_faults := always\<rparr>" True always 0 0 "[Poll 0 1]"]
  by (simp add: always_def)

subsection \<open>Switch handlers\<close>

text \<open>
  C9. \<open>setup_switch_handlers\<close> keeps the nine switches in order with their pins, and
  for every index \<open>i\<close> in [0, 9) the handler of switch \<open>i\<close> is \<open>toggle_led\<close> applied to
  exactly \<open>i\<close>. The index is within the bounds of \<open>led_states\<close>, \<open>led_colors\<close> and the
  pixel buffer. In every state of the running loop, a press edge on switch \<open>i\<close> completes,
  inverts \<open>led_states[i]\<close>, rewrites pixel \<open>i\<close>, and leaves every other LED's state and
  pixel as they were.
\<close>

theorem switch_handlers_bind_index:
  assumes "program probe_ok faults b0 v0 evs = Running s" "i < NUM_LEDS"
  shows "length (setup_switch_handlers switches) = NUM_LEDS
    \<and> pin (setup_switch_handlers switches ! i) = SWITCH_PINS ! i
    \<and> when_pressed (setup_switch_handlers switches ! i) = Some (toggle_led (int i))
    \<and> py_index (length (led_states s)) (int i) = Some i
    \<and> py_index (length led_colors) (int i) = Some i
    \<and> py_index (length (pixels s)) (int i) = Some i
    \<and> (\<exists>s'. press (setup_switch_handlers switches) i s = Inr s'
          \<and> led_states s' = (led_states s)[i := \<not> led_states s ! i]
          \<and> pixels s' = (pixels s)[i := if led_states s ! i then (0, 0, 0) else led_colors ! i]
          \<and> (\<forall>j. j \<noteq> i \<longrightarrow> led_states s' ! j = led_states s ! j \<and> pixels s' ! j = pixels s ! j))"
proof -
  from program_Running [OF assms(1)] have inv: "loop_inv s" by simp
  then have l: "length (led_states s) = NUM_LEDS" "length (pixels s) = NUM_LEDS"
    by (simp_all add: loop_inv_def length_rendered)
  have p: "pin (setup_switch_handlers switches ! i) = SWITCH_PINS ! i"
  proof -
    from assms(2) have "i < length SWITCH_PINS"
      by (simp add: SWITCH_PINS_def NUM_LEDS_def)
    then show ?thesis
      by (simp add: setup_switch_handlers_def switches_def nth_enumerate_eq)
  qed
  have t: "\<exists>s'. press (setup_switch_handlers switches) i s = Inr s'
          \<and> led_states s' = (led_states s)[i := \<not> led_states s ! i]
          \<and> pixels s' = (pixels s)[i := if led_states s ! i then (0, 0, 0) else led_colors ! i]
          \<and> (\<forall>j. j \<noteq> i \<longrightarrow> led_states s' ! j = led_states s ! j \<and> pixels s' ! j = pixels s ! j)"
    using assms(2)
    by (simp add: handlers_def [symmetric] press_handlers toggle_led_eq [OF l assms(2)])
  show ?thesis
    using assms(2) l p t length_handlers when_pressed_handlers [OF assms(2)]
    by (simp add: handlers_def py_index_nat length_led_colors)
qed

theorem switch_handlers_bind_index_witness:
  "program True never 0 0 [Press 2] = Running lit_blue \<and> (2::nat) < NUM_LEDS
   \<and> when_pressed (setup_switch_handlers switches ! 2) = Some (toggle_led (int 2))
   \<and> (\<exists>s'. press (setup_switch_handlers switches) 2 lit_blue = Inr s'
          \<and> led_states s' = (led_states lit_blue)[2 := \<not> led_states lit_blue ! 2]
          \<and> (\<forall>j. j \<noteq> 2 \<longrightarrow> led_states s' ! j = led_states lit_blue ! j
                \<and> pixels s' ! j = pixels lit_blue ! j))"
proof -
  have n: "(2::nat) < NUM_LEDS" by (simp add: NUM_LEDS_def)
  from switch_handlers_bind_index [OF lit_blue_run n] lit_blue_run n show ?thesis by blast
qed

subsection \<open>Parity of the volume\<close>

text \<open>
  C10, as stated: every change to the stored volume triggers a push to the audio
  endpoint. It fails when the audio probe at start-up has failed: one step of the volume
  encoder changes the stored volume from 50 to 52, and the endpoint receives nothing.
\<close>

theorem volume_change_without_push_counterexample:
  "exit_status (program False never 0 0 [Poll 0 1]) = None
   \<and> volume (final (program False never 0 0 [])) = 50
   \<and> volume (final (program False never 0 0 [Poll 0 1])) = 52
   \<and> audio_calls (final (program False never 0 0 [Poll 0 1])) = []"
  by (simp add: program_def module_init_eq main_def set_system_volume_eq update_volume_eq
      power_on_def never_def Let_def py_print_def pixels_fill_def pixels_show_def)

text \<open>
  C10, amended. In every state of the running loop the stored volume is even. Every
  call of \<open>update_volume\<close> completes and keeps it even; if the call changes the stored
  value, it changes it by at least 2, which exceeds the threshold, so it calls
  \<open>set_system_volume\<close> with the new value and prints the volume line; the scalar
  \<open>new / 100.0\<close> reaches the audio endpoint if audio was found available at start-up,
  and nothing reaches it otherwise.
\<close>

theorem volume_stays_even:
  assumes "program probe_ok faults b0 v0 evs = Running s"
  shows "even (volume s)
    \<and> (\<exists>s'. update_volume d s = Inr s' \<and> even (volume s')
          \<and> (volume s' \<noteq> volume s \<longrightarrow>
                2 \<le> \<bar>volume s' - volume s\<bar>
                \<and> update_volume d s =
                    and_then (set_system_volume (volume s') (s\<lparr>volume := volume s'\<rparr>))
                      (\<lambda>s2. Inr (py_print (Volume_line (volume s')) s2))
                \<and> audio_calls s' =
                    (if probe_ok then audio_calls s @ [real_of_int (volume s') / 100.0]
                     else audio_calls s)))"
proof -
  from program_Running [OF assms] have e: "even (volume s)" and b: "in_bounds s"
    and a: "audio_available s = probe_ok"
    by (simp_all add: loop_inv_def)
  define new where "new = max 0 (min 100 (volume s + d * 2))"
  have en: "even new" using e by (simp add: new_def max_def min_def)
  have ch: "2 \<le> \<bar>new - volume s\<bar>" if "new \<noteq> volume s"
    using that e en by (auto elim!: evenE)
  obtain s' where s': "update_volume d s = Inr s'"
    by (simp add: update_volume_eq)
  have v: "volume s' = new"
    using s' by (auto simp: update_volume_eq new_def Let_def py_print_def split: if_splits)
  have c: "update_volume d s =
             and_then (set_system_volume new (s\<lparr>volume := new\<rparr>))
               (\<lambda>s2. Inr (py_print (Volume_line new) s2))
           \<and> audio_calls s' =
               (if probe_ok then audio_calls s @ [real_of_int new / 100.0] else audio_calls s)"
    if "new \<noteq> volume s"
  proof -
    from ch [OF that] have g: "\<bar>new - volume s\<bar> > 1" by simp
    have "update_volume d s =
             and_then (set_system_volume new (s\<lparr>volume := new\<rparr>))
               (\<lambda>s2. Inr (py_print (Volume_line new) s2))"
      using g by (simp add: update_volume_eq set_system_volume_eq and_then_def Let_def
          new_def [symmetric] py_print_def)
    moreover have "audio_calls s' =
               (if probe_ok then audio_calls s @ [real_of_int new / 100.0] else audio_calls s)"
      using g s' a by (auto simp: update_volume_eq Let_def new_def [symmetric] py_print_def)
    ultimately show ?thesis by simp
  qed
  show ?thesis using e s' en ch c by (auto simp: v)
qed

theorem volume_stays_even_witness:
  "program True never 0 0 [Press 2] = Running lit_blue
   \<and> even (volume lit_blue)
   \<and> (\<exists>s'. update_volume 1 lit_blue = Inr s' \<and> even (volume s')
          \<and> (volume s' \<noteq> volume lit_blue \<longrightarrow>
                2 \<le> \<bar>volume s' - volume lit_blue\<bar>
                \<and> audio_calls s' = audio_calls lit_blue @ [real_of_int (volume s') / 100.0]))"
proof -
  from volume_stays_even [OF lit_blue_run, of 1] lit_blue_run show ?thesis by auto
qed

end
